theory Spec2Isabelle
  imports Main "HOL-Library.Sublist"
begin

section \<open>Embedding of pxdatautil.py\<close>

text \<open>
  The module builds the paths of the monthly prescribing data files below a root
  directory, loads them with pandas, and checks that the files of a range of months
  exist. Python integers are unbounded, so years and months are \<open>int\<close>. A failing
  \<^verbatim>\<open>assert\<close> raises AssertionError with the message of the assertion; the
  other exceptions are those of the library calls the module makes.
\<close>

datatype error =
    AssertionError string
  | ValueError
  | IndexError
  | FileNotFoundError string
  | ParseError

subsection \<open>The library calls of the path functions\<close>

text \<open>\<^verbatim>\<open>str(n)\<close> for an integer: its decimal digits, with a minus sign when negative.\<close>

definition digit_char :: "nat \<Rightarrow> char" where
  "digit_char d = ''0123456789'' ! d"

fun str_nat :: "nat \<Rightarrow> string" where
  "str_nat n = (if n < 10 then [digit_char n] else str_nat (n div 10) @ [digit_char (n mod 10)])"

declare str_nat.simps [simp del]

definition str_int :: "int \<Rightarrow> string" where
  "str_int i = (if i < 0 then CHR ''-'' # str_nat (nat (- i)) else str_nat (nat i))"

text \<open>
  The format specification \<^verbatim>\<open>{:0>2}\<close>: the text of the value, right-aligned in a
  field of width 2 that is filled with the character 0. A longer text is not cut.
\<close>

definition format_fill_right :: "char \<Rightarrow> nat \<Rightarrow> string \<Rightarrow> string" where
  "format_fill_right c w s = replicate (w - length s) c @ s"

text \<open>
  \<^verbatim>\<open>datetime.strptime(s, '%m')\<close> accepts a month number of one or two digits, from
  1 to 12, and nothing else; \<^verbatim>\<open>strftime('%B')\<close> gives the full English name of
  the month (in the C locale).
\<close>

definition month_texts :: "(string \<times> nat) list" where
  "month_texts =
    [(''1'', 1), (''2'', 2), (''3'', 3), (''4'', 4), (''5'', 5), (''6'', 6),
     (''7'', 7), (''8'', 8), (''9'', 9), (''10'', 10), (''11'', 11), (''12'', 12),
     (''01'', 1), (''02'', 2), (''03'', 3), (''04'', 4), (''05'', 5), (''06'', 6),
     (''07'', 7), (''08'', 8), (''09'', 9)]"

definition strptime_m :: "string \<Rightarrow> error + nat" where
  "strptime_m s = (case map_of month_texts s of None \<Rightarrow> Inl ValueError | Some m \<Rightarrow> Inr m)"

definition month_names :: "string list" where
  "month_names =
    [''January'', ''February'', ''March'', ''April'', ''May'', ''June'', ''July'',
     ''August'', ''September'', ''October'', ''November'', ''December'']"

definition strftime_B :: "nat \<Rightarrow> string" where
  "strftime_B m = month_names ! (m - 1)"

subsection \<open>Validation\<close>

definition year_message :: string where
  "year_message = ''Year must be between 2010 and 3000 (inclusive)''"

definition month_message :: string where
  "month_message = ''Months must be an integer between 1 and 12 (inclusive)''"

definition range_message :: string where
  "range_message = [CHR 0x22] @ ''To'' @ [CHR 0x22] @ '' date must be before ''
       @ [CHR 0x22] @ ''from'' @ [CHR 0x22] @ '' date''"

definition validate_year :: "int \<Rightarrow> error + unit" where
  "validate_year year =
     (if year \<ge> 2010 \<and> year \<le> 3000 then Inr () else Inl (AssertionError year_message))"

definition validate_month :: "int \<Rightarrow> error + unit" where
  "validate_month month =
     (if month > 0 \<and> month < 13 then Inr () else Inl (AssertionError month_message))"

subsection \<open>Path prefixes\<close>

text \<open>
  \<^verbatim>\<open>root_data_dir\<close> is a module variable that the path functions read; the model
  passes its value as the first argument, and this is the value the module sets.
\<close>

definition root_data_dir :: string where
  "root_data_dir = ''./full_data/''"

definition get_file_path_prefix :: "string \<Rightarrow> int \<Rightarrow> int \<Rightarrow> error + string" where
  "get_file_path_prefix root year month =
     (case validate_year year of
        Inl e \<Rightarrow> Inl e
      | Inr _ \<Rightarrow>
         (case validate_month month of
            Inl e \<Rightarrow> Inl e
          | Inr _ \<Rightarrow>
             (case strptime_m (str_int month) of
                Inl e \<Rightarrow> Inl e
              | Inr d \<Rightarrow>
                 (let data_dir = str_int year @ ''_''
                        @ format_fill_right CHR ''0'' 2 (str_int month)
                        @ ''_'' @ strftime_B d @ ''/''
                  in Inr (root @ data_dir @ ''T'' @ str_int year
                            @ format_fill_right CHR ''0'' 2 (str_int month))))))"

definition get_address_data_filepath :: "string \<Rightarrow> int \<Rightarrow> int \<Rightarrow> error + string" where
  "get_address_data_filepath root year month =
     map_sum id (\<lambda>p. p @ ''ADDR BNFT.CSV'') (get_file_path_prefix root year month)"

definition get_chems_data_filepath :: "string \<Rightarrow> int \<Rightarrow> int \<Rightarrow> error + string" where
  "get_chems_data_filepath root year month =
     map_sum id (\<lambda>p. p @ ''CHEM SUBS.CSV'') (get_file_path_prefix root year month)"

definition get_prescription_data_filepath :: "string \<Rightarrow> int \<Rightarrow> int \<Rightarrow> error + string" where
  "get_prescription_data_filepath root year month =
     map_sum id (\<lambda>p. p @ ''PDPI BNFT.CSV'') (get_file_path_prefix root year month)"

subsection \<open>The prefixes of a range of months\<close>

text \<open>
  The \<^verbatim>\<open>while\<close> loop of \<^verbatim>\<open>get_data_filepath_prefixes\<close>, with the loop
  variables \<^verbatim>\<open>current_year\<close>, \<^verbatim>\<open>current_month\<close> and \<^verbatim>\<open>filepaths\<close>
  as arguments. An iteration whose call of \<^verbatim>\<open>get_file_path_prefix\<close> raises leaves
  the loop with that exception.
\<close>

function prefixes_loop ::
  "string \<Rightarrow> int \<Rightarrow> int \<Rightarrow> int \<Rightarrow> int \<Rightarrow> string list \<Rightarrow> error + string list" where
  "prefixes_loop root year_to month_to current_year current_month filepaths =
     (if \<not> (current_year = year_to \<and> current_month = month_to + 1) then
        (case get_file_path_prefix root current_year current_month of
           Inl e \<Rightarrow> Inl e
         | Inr p \<Rightarrow>
             (if current_month + 1 > 12
              then prefixes_loop root year_to month_to (current_year + 1) 1 (filepaths @ [p])
              else prefixes_loop root year_to month_to current_year (current_month + 1)
                     (filepaths @ [p])))
      else Inr filepaths)"
  by pat_completeness auto
termination
proof (relation "measure (\<lambda>(root, yt, mt, cy, cm, fps). nat ((3001 - cy) * 12 + (13 - cm)))")
  show "wf (measure (\<lambda>(root, yt, mt, cy, cm, fps). nat ((3001 - cy) * 12 + (13 - cm))))"
    by simp
next
  fix root :: string and year_to month_to current_year current_month :: int
    and filepaths :: "string list" and p :: string
  assume "get_file_path_prefix root current_year current_month = Inr p"
    and "12 < current_month + 1"
  then have "current_year \<le> 3000 \<and> current_month \<le> 12 \<and> 12 < current_month + 1"
    by (auto simp: get_file_path_prefix_def validate_year_def validate_month_def
             split: if_splits sum.splits)
  then show "((root, year_to, month_to, current_year + 1, 1, filepaths @ [p]),
              (root, year_to, month_to, current_year, current_month, filepaths))
             \<in> measure (\<lambda>(root, yt, mt, cy, cm, fps). nat ((3001 - cy) * 12 + (13 - cm)))"
    by auto
next
  fix root :: string and year_to month_to current_year current_month :: int
    and filepaths :: "string list" and p :: string
  assume "get_file_path_prefix root current_year current_month = Inr p"
    and "\<not> 12 < current_month + 1"
  then have "current_year \<le> 3000 \<and> \<not> 12 < current_month + 1"
    by (auto simp: get_file_path_prefix_def validate_year_def validate_month_def
             split: if_splits sum.splits)
  then show "((root, year_to, month_to, current_year, current_month + 1, filepaths @ [p]),
              (root, year_to, month_to, current_year, current_month, filepaths))
             \<in> measure (\<lambda>(root, yt, mt, cy, cm, fps). nat ((3001 - cy) * 12 + (13 - cm)))"
    by auto
qed

declare prefixes_loop.simps [simp del]

definition get_data_filepath_prefixes ::
  "string \<Rightarrow> int \<Rightarrow> int \<Rightarrow> int \<Rightarrow> int \<Rightarrow> error + string list" where
  "get_data_filepath_prefixes root year_from month_from year_to month_to =
     (if year_from < year_to \<or> (year_from = year_to \<and> month_from \<le> month_to)
      then prefixes_loop root year_to month_to year_from month_from []
      else Inl (AssertionError range_message))"

definition get_address_data_filepaths ::
  "string \<Rightarrow> int \<Rightarrow> int \<Rightarrow> int \<Rightarrow> int \<Rightarrow> error + string list" where
  "get_address_data_filepaths root year_from month_from year_to month_to =
     map_sum id (map (\<lambda>p. p @ ''ADDR BNFT.CSV''))
       (get_data_filepath_prefixes root year_from month_from year_to month_to)"

definition get_chems_data_filepaths ::
  "string \<Rightarrow> int \<Rightarrow> int \<Rightarrow> int \<Rightarrow> int \<Rightarrow> error + string list" where
  "get_chems_data_filepaths root year_from month_from year_to month_to =
     map_sum id (map (\<lambda>p. p @ ''CHEM SUBS.CSV''))
       (get_data_filepath_prefixes root year_from month_from year_to month_to)"

definition get_prescription_data_filepaths ::
  "string \<Rightarrow> int \<Rightarrow> int \<Rightarrow> int \<Rightarrow> int \<Rightarrow> error + string list" where
  "get_prescription_data_filepaths root year_from month_from year_to month_to =
     map_sum id (map (\<lambda>p. p @ ''PDPI BNFT.CSV''))
       (get_data_filepath_prefixes root year_from month_from year_to month_to)"

subsection \<open>Checking that the files exist\<close>

text \<open>
  What \<^verbatim>\<open>check_data\<close> does to the world: the paths it asks
  \<^verbatim>\<open>os.path.isfile\<close> about, in the order of the calls, and the lines it prints.
  The file system is only read: it is the predicate \<open>isfile\<close>.
\<close>

record world =
  probed :: "string list"
  printed :: "string list"

definition warning :: "string \<Rightarrow> string" where
  "warning filepath = ''WARNING: File not found - '' @ filepath"

definition file_check :: "(string \<Rightarrow> bool) \<Rightarrow> world \<Rightarrow> string \<Rightarrow> world" where
  "file_check isfile w filepath =
     (let w1 = w\<lparr>probed := probed w @ [filepath]\<rparr>
      in if \<not> isfile filepath then w1\<lparr>printed := printed w1 @ [warning filepath]\<rparr> else w1)"

text \<open>
  The \<^verbatim>\<open>for\<close> loop over \<^verbatim>\<open>range(0, len(address_filepaths))\<close>. An index
  beyond the end of a list raises IndexError, after the checks made so far.
\<close>

fun check_loop ::
  "(string \<Rightarrow> bool) \<Rightarrow> string list \<Rightarrow> string list \<Rightarrow> string list \<Rightarrow> nat list \<Rightarrow> world
     \<Rightarrow> world \<times> (error + unit)" where
  "check_loop isfile address_filepaths chems_filepaths pxdata_filenames [] w = (w, Inr ())"
| "check_loop isfile address_filepaths chems_filepaths pxdata_filenames (i # rest) w =
     (if \<not> i < length address_filepaths then (w, Inl IndexError)
      else let w1 = file_check isfile w (address_filepaths ! i) in
        if \<not> i < length chems_filepaths then (w1, Inl IndexError)
        else let w2 = file_check isfile w1 (chems_filepaths ! i) in
          if \<not> i < length pxdata_filenames then (w2, Inl IndexError)
          else check_loop isfile address_filepaths chems_filepaths pxdata_filenames rest
                 (file_check isfile w2 (pxdata_filenames ! i)))"

definition check_data ::
  "(string \<Rightarrow> bool) \<Rightarrow> string \<Rightarrow> int \<Rightarrow> int \<Rightarrow> int \<Rightarrow> int \<Rightarrow> world \<Rightarrow> world \<times> (error + unit)" where
  "check_data isfile root year_from month_from year_to month_to w =
     (case get_address_data_filepaths root year_from month_from year_to month_to of
        Inl e \<Rightarrow> (w, Inl e)
      | Inr address_filepaths \<Rightarrow>
         (case get_chems_data_filepaths root year_from month_from year_to month_to of
            Inl e \<Rightarrow> (w, Inl e)
          | Inr chems_filepaths \<Rightarrow>
             (case get_prescription_data_filepaths root year_from month_from year_to month_to of
                Inl e \<Rightarrow> (w, Inl e)
              | Inr pxdata_filenames \<Rightarrow>
                  check_loop isfile address_filepaths chems_filepaths pxdata_filenames
                    [0 ..< length address_filepaths] w)))"

subsection \<open>Loading a month\<close>

text \<open>
  Modelled from the spec: \<^verbatim>\<open>pandas.read_csv\<close> and \<^verbatim>\<open>pandas.to_datetime\<close>
  are library code that is not part of the module. The spec reads a file as a structured
  table whose rows are all data unless rows are skipped, with the column names assigned
  by position, and parses a YYYYMM column into the date of the first day of the month;
  a missing file, a row with the wrong number of columns and a malformed date are
  errors. A file is its rows, a row the texts of its fields (the splitting of a line
  into fields is not modelled); a loaded table is its rows, a row its cells by column name.
\<close>

datatype cell = Text string | Date int int int

type_synonym data_frame = "(string \<times> cell) list list"

definition read_csv ::
  "(string \<rightharpoonup> string list list) \<Rightarrow> string \<Rightarrow> string list \<Rightarrow> nat \<Rightarrow> error + data_frame" where
  "read_csv files filepath names skiprows =
     (case files filepath of
        None \<Rightarrow> Inl (FileNotFoundError filepath)
      | Some rows \<Rightarrow>
         (let data = drop skiprows rows
          in if list_all (\<lambda>r. length r = length names) data
             then Inr (map (\<lambda>r. zip names (map Text r)) data)
             else Inl ParseError))"

definition digit_value :: "char \<Rightarrow> int" where
  "digit_value c = int (of_char c) - 48"

definition is_digit :: "char \<Rightarrow> bool" where
  "is_digit c = (c \<in> set ''0123456789'')"

definition digits_value :: "string \<Rightarrow> int" where
  "digits_value s = foldl (\<lambda>a c. a * 10 + digit_value c) 0 s"

definition parse_year_month :: "cell \<Rightarrow> error + cell" where
  "parse_year_month c =
     (case c of
        Date y m d \<Rightarrow> Inr (Date y m d)
      | Text s \<Rightarrow>
         (if length s = 6 \<and> list_all is_digit s
               \<and> 1 \<le> digits_value (drop 4 s) \<and> digits_value (drop 4 s) \<le> 12
          then Inr (Date (digits_value (take 4 s)) (digits_value (drop 4 s)) 1)
          else Inl ParseError))"

fun sequence_err :: "(error + 'a) list \<Rightarrow> error + 'a list" where
  "sequence_err [] = Inr []"
| "sequence_err (x # xs) =
     (case x of
        Inl e \<Rightarrow> Inl e
      | Inr v \<Rightarrow> (case sequence_err xs of Inl e \<Rightarrow> Inl e | Inr vs \<Rightarrow> Inr (v # vs)))"

definition to_datetime :: "string \<Rightarrow> data_frame \<Rightarrow> error + data_frame" where
  "to_datetime column frame =
     sequence_err
       (map (\<lambda>row. sequence_err
               (map (\<lambda>(name, c). if name = column
                                 then map_sum id (Pair name) (parse_year_month c)
                                 else Inr (name, c)) row))
            frame)"

definition addresses_col_names :: "string list" where
  "addresses_col_names =
     [''Year-Month'', ''PracticeCode'', ''PracticeName'', ''Addr1'', ''Addr2'', ''Addr3'',
      ''Addr4'', ''PostCode'']"

definition chem_col_names :: "string list" where
  "chem_col_names = [''ChemCode'', ''ChemName'']"

definition load_address_data ::
  "(string \<rightharpoonup> string list list) \<Rightarrow> string \<Rightarrow> int \<Rightarrow> int \<Rightarrow> error + data_frame" where
  "load_address_data files root year month =
     (case get_address_data_filepath root year month of
        Inl e \<Rightarrow> Inl e
      | Inr address_data_filepath \<Rightarrow>
         (case read_csv files address_data_filepath addresses_col_names 0 of
            Inl e \<Rightarrow> Inl e
          | Inr addresses \<Rightarrow> to_datetime ''Year-Month'' addresses))"

definition load_chems_data ::
  "(string \<rightharpoonup> string list list) \<Rightarrow> string \<Rightarrow> int \<Rightarrow> int \<Rightarrow> error + data_frame" where
  "load_chems_data files root year month =
     (case get_chems_data_filepath root year month of
        Inl e \<Rightarrow> Inl e
      | Inr chems_data_filepath \<Rightarrow> read_csv files chems_data_filepath chem_col_names 1)"

subsection \<open>The layout the spec describes\<close>

text \<open>
  The spec's words for a prefix: the root, the directory of the month named by the year,
  the month padded to two digits and the full name of the month, and the stem T followed
  by the year and the padded month. The months of a range are the calendar months from
  the first to the last, both included, counted as months since year 0.
\<close>

definition two_digits :: "int \<Rightarrow> string" where
  "two_digits n = [digit_char (nat n div 10), digit_char (nat n mod 10)]"

definition four_digits :: "int \<Rightarrow> string" where
  "four_digits n =
     [digit_char (nat n div 1000), digit_char (nat n div 100 mod 10),
      digit_char (nat n div 10 mod 10), digit_char (nat n mod 10)]"

definition month_dir :: "int \<Rightarrow> int \<Rightarrow> string" where
  "month_dir year month =
     four_digits year @ ''_'' @ two_digits month @ ''_'' @ month_names ! nat (month - 1)"

definition file_stem :: "int \<Rightarrow> int \<Rightarrow> string" where
  "file_stem year month = ''T'' @ four_digits year @ two_digits month"

definition spec_prefix :: "string \<Rightarrow> int \<Rightarrow> int \<Rightarrow> string" where
  "spec_prefix root year month = root @ month_dir year month @ ''/'' @ file_stem year month"

definition months_between :: "int \<Rightarrow> int \<Rightarrow> int \<Rightarrow> int \<Rightarrow> (int \<times> int) list" where
  "months_between year_from month_from year_to month_to =
     map (\<lambda>k. (k div 12, k mod 12 + 1))
       [year_from * 12 + (month_from - 1) .. year_to * 12 + (month_to - 1)]"

definition month_files :: "string \<Rightarrow> int \<times> int \<Rightarrow> string list" where
  "month_files root ym =
     [spec_prefix root (fst ym) (snd ym) @ ''ADDR BNFT.CSV'',
      spec_prefix root (fst ym) (snd ym) @ ''CHEM SUBS.CSV'',
      spec_prefix root (fst ym) (snd ym) @ ''PDPI BNFT.CSV'']"

definition valid_range :: "int \<Rightarrow> int \<Rightarrow> int \<Rightarrow> int \<Rightarrow> bool" where
  "valid_range year_from month_from year_to month_to =
     (2010 \<le> year_from \<and> year_to \<le> 3000 \<and> 1 \<le> month_from \<and> month_from \<le> 12
      \<and> 1 \<le> month_to \<and> month_to \<le> 12
      \<and> (year_from < year_to \<or> (year_from = year_to \<and> month_from \<le> month_to)))"

section \<open>Decimal texts\<close>

lemma str_nat_four:
  assumes "1000 \<le> n" "n < 10000"
  shows "str_nat n = [digit_char (n div 1000), digit_char (n div 100 mod 10),
      digit_char (n div 10 mod 10), digit_char (n mod 10)]"
proof -
  have d: "n div 10 div 10 = n div 100" "n div 100 div 10 = n div 1000"
    by (simp_all add: div_mult2_eq[symmetric])
  have "str_nat n = str_nat (n div 10) @ [digit_char (n mod 10)]"
    using assms by (subst str_nat.simps) simp
  also have "str_nat (n div 10) = str_nat (n div 100) @ [digit_char (n div 10 mod 10)]"
    using assms d by (subst str_nat.simps) simp
  also have "str_nat (n div 100) = str_nat (n div 1000) @ [digit_char (n div 100 mod 10)]"
    using assms d by (subst str_nat.simps) simp
  also have "str_nat (n div 1000) = [digit_char (n div 1000)]"
    using assms by (subst str_nat.simps) simp
  finally show ?thesis by simp
qed

lemma str_int_year: "2010 \<le> y \<Longrightarrow> y \<le> 3000 \<Longrightarrow> str_int y = four_digits y"
  unfolding str_int_def four_digits_def by (simp add: str_nat_four)

lemma month_cases:
  "1 \<le> (m::int) \<Longrightarrow> m \<le> 12 \<Longrightarrow>
     m = 1 \<or> m = 2 \<or> m = 3 \<or> m = 4 \<or> m = 5 \<or> m = 6 \<or> m = 7 \<or> m = 8 \<or> m = 9
       \<or> m = 10 \<or> m = 11 \<or> m = 12"
  by arith

lemma str_int_month:
  assumes "1 \<le> m" "m \<le> 12"
  shows "format_fill_right CHR ''0'' 2 (str_int m) = two_digits m
           \<and> strptime_m (str_int m) = Inr (nat m)"
  using month_cases[OF assms]
  by (elim disjE)
     (simp_all add: str_int_def str_nat.simps format_fill_right_def two_digits_def
        strptime_m_def month_texts_def digit_char_def)

section \<open>The prefix of one month\<close>

lemma get_file_path_prefix_valid:
  "2010 \<le> y \<Longrightarrow> y \<le> 3000 \<Longrightarrow> 1 \<le> m \<Longrightarrow> m \<le> 12 \<Longrightarrow>
     get_file_path_prefix root y m = Inr (spec_prefix root y m)"
  by (simp add: get_file_path_prefix_def validate_year_def validate_month_def str_int_month
      str_int_year spec_prefix_def month_dir_def file_stem_def strftime_B_def nat_diff_distrib)

lemma get_file_path_prefix_year:
  "y < 2010 \<or> 3000 < y \<Longrightarrow> get_file_path_prefix root y m = Inl (AssertionError year_message)"
  by (auto simp: get_file_path_prefix_def validate_year_def)

lemma get_file_path_prefix_month:
  "2010 \<le> y \<Longrightarrow> y \<le> 3000 \<Longrightarrow> m < 1 \<or> 12 < m \<Longrightarrow>
     get_file_path_prefix root y m = Inl (AssertionError month_message)"
  by (auto simp: get_file_path_prefix_def validate_year_def validate_month_def)

lemma get_file_path_prefix_cases:
  "get_file_path_prefix root y m =
     (if y < 2010 \<or> 3000 < y then Inl (AssertionError year_message)
      else if m < 1 \<or> 12 < m then Inl (AssertionError month_message)
      else Inr (spec_prefix root y m))"
  using get_file_path_prefix_valid[of y m root] get_file_path_prefix_year[of y root m]
    get_file_path_prefix_month[of y m root]
  by (cases "y < 2010 \<or> 3000 < y"; cases "m < 1 \<or> 12 < m") (simp_all add: not_less)

lemma messages_distinct:
  "year_message \<noteq> month_message" "range_message \<noteq> year_message"
  "range_message \<noteq> month_message"
  by (simp_all add: year_message_def month_message_def range_message_def)

lemma april_2013: "spec_prefix root 2013 4 = root @ ''2013_04_April/T201304''"
  by (simp add: spec_prefix_def month_dir_def file_stem_def four_digits_def two_digits_def
      month_names_def digit_char_def)

text \<open>
  C3. For every year from 2010 to 3000 and every month from 1 to 12 the prefix is the
  root, the directory of the month (the year, the month padded to two digits and the
  full English name of the month), a slash, and T with the year and the padded month.
  With the root the module configures, the directory ./full_data, the prefix is that
  directory, a slash, the directory of the month, a slash and the stem; for April 2013
  it ends in 2013_04_April/T201304.
\<close>

theorem get_file_path_prefix_format:
  assumes "2010 \<le> year" "year \<le> 3000" "1 \<le> month" "month \<le> 12"
  shows "get_file_path_prefix root year month =
           Inr (root @ four_digits year @ ''_'' @ two_digits month @ ''_''
                  @ month_names ! nat (month - 1) @ ''/'' @ ''T'' @ four_digits year
                  @ two_digits month)
         \<and> get_file_path_prefix root_data_dir year month =
           Inr (''./full_data'' @ ''/'' @ month_dir year month @ ''/'' @ file_stem year month)
         \<and> get_file_path_prefix root_data_dir 2013 4 = Inr ''./full_data/2013_04_April/T201304''"
  using get_file_path_prefix_valid[OF assms, of root]
    get_file_path_prefix_valid[OF assms, of root_data_dir]
    get_file_path_prefix_valid[of 2013 4 root_data_dir]
  by (simp add: april_2013) (simp add: spec_prefix_def month_dir_def file_stem_def root_data_dir_def)

theorem get_file_path_prefix_format_witness:
  "get_file_path_prefix ''/data/'' 2024 12 = Inr ''/data/2024_12_December/T202412''"
  using get_file_path_prefix_format[of 2024 12 "''/data/''"]
  by (simp add: four_digits_def two_digits_def month_names_def digit_char_def)

text \<open>
  C4. The prefix of a month fails exactly when the year is below 2010 or above 3000 or
  the month is below 1 or above 12. The failure is the assertion about the year, with
  the message that names the year and its two bounds, when the year is out of its range,
  and otherwise the assertion about the month, with the message that names the month and
  its two bounds; the two messages differ. In particular the years 2009 and 3001 and
  the months 0 and 13 fail.
\<close>

theorem get_file_path_prefix_fails_iff:
  "((\<exists>e. get_file_path_prefix root year month = Inl e)
      \<longleftrightarrow> (year < 2010 \<or> year > 3000 \<or> month < 1 \<or> month > 12))
   \<and> ((\<exists>p. get_file_path_prefix root year month = Inr p)
      \<longleftrightarrow> (2010 \<le> year \<and> year \<le> 3000 \<and> 1 \<le> month \<and> month \<le> 12))
   \<and> (year < 2010 \<or> year > 3000
        \<longrightarrow> get_file_path_prefix root year month = Inl (AssertionError year_message))
   \<and> (2010 \<le> year \<and> year \<le> 3000 \<and> (month < 1 \<or> month > 12)
        \<longrightarrow> get_file_path_prefix root year month = Inl (AssertionError month_message))
   \<and> year_message \<noteq> month_message
   \<and> get_file_path_prefix root 2009 4 = Inl (AssertionError year_message)
   \<and> get_file_path_prefix root 3001 4 = Inl (AssertionError year_message)
   \<and> get_file_path_prefix root 2013 0 = Inl (AssertionError month_message)
   \<and> get_file_path_prefix root 2013 13 = Inl (AssertionError month_message)"
  by (simp add: get_file_path_prefix_cases messages_distinct)

theorem get_file_path_prefix_fails_iff_witness:
  "get_file_path_prefix root_data_dir 1999 7 = Inl (AssertionError year_message)
   \<and> get_file_path_prefix root_data_dir 2020 (- 3) = Inl (AssertionError month_message)
   \<and> (\<exists>p. get_file_path_prefix root_data_dir 3000 1 = Inr p)"
  using get_file_path_prefix_fails_iff[of root_data_dir 1999 7]
    get_file_path_prefix_fails_iff[of root_data_dir 2020 "- 3"]
    get_file_path_prefix_fails_iff[of root_data_dir 3000 1]
  by simp

section \<open>The prefixes of a range\<close>

lemma month_index_div_mod:
  "1 \<le> (m::int) \<Longrightarrow> m \<le> 12 \<Longrightarrow>
     (y * 12 + (m - 1)) div 12 = y \<and> (y * 12 + (m - 1)) mod 12 + 1 = m"
  by (simp add: div_pos_pos_trivial mod_pos_pos_trivial)

text \<open>
  When the last month is December the loop compares the current month with 13, which
  no current month is: the loop goes on until the year 3001 fails the validation.
\<close>

lemma prefixes_loop_december:
  "mt = 12 \<Longrightarrow> 2010 \<le> cy \<Longrightarrow> 1 \<le> cm \<Longrightarrow> cm \<le> 12 \<Longrightarrow>
     prefixes_loop root yt mt cy cm acc = Inl (AssertionError year_message)"
proof (induction root yt mt cy cm acc rule: prefixes_loop.induct)
  case (1 root yt mt cy cm acc)
  have not_end: "\<not> (cy = yt \<and> cm = mt + 1)"
    using "1.prems" by simp
  show ?case
  proof (cases "cy \<le> 3000")
    case False
    then have "get_file_path_prefix root cy cm = Inl (AssertionError year_message)"
      by (simp add: get_file_path_prefix_year)
    with not_end show ?thesis
      by (subst prefixes_loop.simps) simp
  next
    case True
    with "1.prems" have p: "get_file_path_prefix root cy cm = Inr (spec_prefix root cy cm)"
      by (simp add: get_file_path_prefix_valid)
    show ?thesis
    proof (cases "12 < cm + 1")
      case True
      from "1.IH"(1)[OF not_end p True] "1.prems"
      have "prefixes_loop root yt mt (cy + 1) 1 (acc @ [spec_prefix root cy cm])
              = Inl (AssertionError year_message)"
        by simp
      with not_end p True show ?thesis
        by (subst prefixes_loop.simps) simp
    next
      case False
      from "1.IH"(2)[OF not_end p False] "1.prems" False
      have "prefixes_loop root yt mt cy (cm + 1) (acc @ [spec_prefix root cy cm])
              = Inl (AssertionError year_message)"
        by simp
      with not_end p False show ?thesis
        by (subst prefixes_loop.simps) simp
    qed
  qed
qed

text \<open>
  When the last month is not December the loop appends the prefix of every month from
  the current one to the last one.
\<close>

lemma prefixes_loop_months:
  "1 \<le> mt \<Longrightarrow> mt \<le> 11 \<Longrightarrow> yt \<le> 3000 \<Longrightarrow> 2010 \<le> cy \<Longrightarrow> 1 \<le> cm \<Longrightarrow> cm \<le> 12 \<Longrightarrow>
   cy * 12 + (cm - 1) \<le> yt * 12 + (mt - 1) + 1 \<Longrightarrow>
     prefixes_loop root yt mt cy cm acc =
       Inr (acc @ map (\<lambda>(y, m). spec_prefix root y m) (months_between cy cm yt mt))"
proof (induction root yt mt cy cm acc rule: prefixes_loop.induct)
  case (1 root yt mt cy cm acc)
  note mt = \<open>1 \<le> mt\<close> \<open>mt \<le> 11\<close> and yt = \<open>yt \<le> 3000\<close> and cy = \<open>2010 \<le> cy\<close>
    and cm = \<open>1 \<le> cm\<close> \<open>cm \<le> 12\<close>
    and bound = \<open>cy * 12 + (cm - 1) \<le> yt * 12 + (mt - 1) + 1\<close>
  show ?case
  proof (cases "cy = yt \<and> cm = mt + 1")
    case True
    then have "months_between cy cm yt mt = []"
      by (simp add: months_between_def)
    with True show ?thesis
      by (subst prefixes_loop.simps) simp
  next
    case not_end: False
    have le: "cy * 12 + (cm - 1) \<le> yt * 12 + (mt - 1)"
      using not_end bound mt cm by arith
    have "cy \<le> 3000"
      using le mt cm yt by arith
    with cy cm have p: "get_file_path_prefix root cy cm = Inr (spec_prefix root cy cm)"
      by (simp add: get_file_path_prefix_valid)
    have unfold: "months_between cy cm yt mt =
        (cy, cm) # map (\<lambda>k. (k div 12, k mod 12 + 1))
           [cy * 12 + (cm - 1) + 1 .. yt * 12 + (mt - 1)]"
      unfolding months_between_def using le month_index_div_mod[OF cm, of cy]
      by (subst upto_rec1) simp_all
    show ?thesis
    proof (cases "12 < cm + 1")
      case True
      with cm have cm12: "cm = 12" by simp
      have "(cy + 1) * 12 + (1 - 1) \<le> yt * 12 + (mt - 1) + 1"
        using le cm12 by simp
      from "1.IH"(1)[OF not_end p True mt yt _ _ _ this] cy
      have "prefixes_loop root yt mt (cy + 1) 1 (acc @ [spec_prefix root cy cm]) =
              Inr ((acc @ [spec_prefix root cy cm]) @
                   map (\<lambda>(y, m). spec_prefix root y m) (months_between (cy + 1) 1 yt mt))"
        by simp
      moreover have "months_between cy cm yt mt = (cy, cm) # months_between (cy + 1) 1 yt mt"
      proof -
        have "cy * 12 + (cm - 1) + 1 = (cy + 1) * 12 + (1 - 1)"
          using cm12 by simp
        then show ?thesis
          by (simp only: unfold) (simp only: months_between_def)
      qed
      ultimately show ?thesis
        using not_end p True by (subst prefixes_loop.simps) simp
    next
      case False
      have "cy * 12 + (cm + 1 - 1) \<le> yt * 12 + (mt - 1) + 1"
        using le by simp
      from "1.IH"(2)[OF not_end p False mt yt cy _ _ this] cm False
      have "prefixes_loop root yt mt cy (cm + 1) (acc @ [spec_prefix root cy cm]) =
              Inr ((acc @ [spec_prefix root cy cm]) @
                   map (\<lambda>(y, m). spec_prefix root y m) (months_between cy (cm + 1) yt mt))"
        by simp
      moreover have "months_between cy cm yt mt = (cy, cm) # months_between cy (cm + 1) yt mt"
      proof -
        have "cy * 12 + (cm - 1) + 1 = cy * 12 + (cm + 1 - 1)"
          by simp
        then show ?thesis
          by (simp only: unfold) (simp only: months_between_def)
      qed
      ultimately show ?thesis
        using not_end p False by (subst prefixes_loop.simps) simp
    qed
  qed
qed

lemma prefixes_loop_error:
  "prefixes_loop root yt mt cy cm acc = Inl e \<Longrightarrow>
     e = AssertionError year_message \<or> e = AssertionError month_message"
proof (induction root yt mt cy cm acc rule: prefixes_loop.induct)
  case (1 root yt mt cy cm acc)
  from "1.prems" have not_end: "\<not> (cy = yt \<and> cm = mt + 1)"
    by (subst (asm) prefixes_loop.simps) (simp split: if_splits)
  show ?case
  proof (cases "get_file_path_prefix root cy cm")
    case (Inl e')
    with not_end "1.prems" have "e = e'"
      by (subst (asm) prefixes_loop.simps) simp
    with Inl show ?thesis
      by (simp add: get_file_path_prefix_cases split: if_splits)
  next
    case (Inr p)
    show ?thesis
    proof (cases "12 < cm + 1")
      case True
      with not_end Inr "1.prems"
      have "prefixes_loop root yt mt (cy + 1) 1 (acc @ [p]) = Inl e"
        by (subst (asm) prefixes_loop.simps) simp
      then show ?thesis
        by (rule "1.IH"(1)[OF not_end Inr True])
    next
      case False
      with not_end Inr "1.prems"
      have "prefixes_loop root yt mt cy (cm + 1) (acc @ [p]) = Inl e"
        by (subst (asm) prefixes_loop.simps) simp
      then show ?thesis
        by (rule "1.IH"(2)[OF not_end Inr False])
    qed
  qed
qed

lemma get_data_filepath_prefixes_december:
  assumes "valid_range yf mf yt mt" "mt = 12"
  shows "get_data_filepath_prefixes root yf mf yt mt = Inl (AssertionError year_message)"
  using assms prefixes_loop_december[of mt yf mf root yt "[]"]
  by (auto simp: get_data_filepath_prefixes_def valid_range_def)

lemma get_data_filepath_prefixes_months:
  assumes "valid_range yf mf yt mt" "mt \<noteq> 12"
  shows "get_data_filepath_prefixes root yf mf yt mt =
           Inr (map (\<lambda>(y, m). spec_prefix root y m) (months_between yf mf yt mt))"
proof -
  from assms have b: "1 \<le> mt" "mt \<le> 11" "yt \<le> 3000" "2010 \<le> yf" "1 \<le> mf" "mf \<le> 12"
    and ord: "yf < yt \<or> (yf = yt \<and> mf \<le> mt)"
    by (simp_all add: valid_range_def)
  from ord b have "yf * 12 + (mf - 1) \<le> yt * 12 + (mt - 1) + 1"
    by arith
  from prefixes_loop_months[OF b this, of root "[]"] ord show ?thesis
    by (simp add: get_data_filepath_prefixes_def)
qed

lemma months_between_example:
  "months_between 2013 11 2014 2 = [(2013, 11), (2013, 12), (2014, 1), (2014, 2)]"
  by (simp add: months_between_def upto_rec1)

lemma get_data_filepath_prefixes_example:
  "get_data_filepath_prefixes root 2013 11 2014 2 =
     Inr [spec_prefix root 2013 11, spec_prefix root 2013 12, spec_prefix root 2014 1,
          spec_prefix root 2014 2]"
  using get_data_filepath_prefixes_months[of 2013 11 2014 2 root]
  by (simp add: valid_range_def months_between_example)

text \<open>
  C1. The spec asks for one prefix per month of every valid range. For the range
  from November 2013 to December 2013 the function returns no list: its loop runs past
  December 2013, and fails the validation of the year 3001.
\<close>

theorem get_data_filepath_prefixes_nov_dec_2013:
  "get_data_filepath_prefixes root_data_dir 2013 11 2013 12
     = Inl (AssertionError year_message)"
  by (rule get_data_filepath_prefixes_december) (simp_all add: valid_range_def)

text \<open>
  C2. The spec asks that the loop returns normally for every valid range, also when
  the first month is the last one and when the last month is December. For the range
  of the single month December 2013 the function raises the assertion about the year.
\<close>

theorem get_data_filepath_prefixes_dec_2013:
  "get_data_filepath_prefixes root_data_dir 2013 12 2013 12
     = Inl (AssertionError year_message)"
  by (rule get_data_filepath_prefixes_december) (simp_all add: valid_range_def)

text \<open>
  C5. The prefixes of a range fail with the assertion about the order of the two dates
  if and only if the first date is strictly after the last one, the years compared
  first and then the months; the range from February 2014 to November 2013 fails so.
\<close>

theorem get_data_filepath_prefixes_range_error_iff:
  "(get_data_filepath_prefixes root year_from month_from year_to month_to
       = Inl (AssertionError range_message)
     \<longleftrightarrow> (year_to < year_from \<or> (year_from = year_to \<and> month_to < month_from)))
   \<and> get_data_filepath_prefixes root 2014 2 2013 11 = Inl (AssertionError range_message)"
proof -
  have "prefixes_loop root year_to month_to year_from month_from []
          \<noteq> Inl (AssertionError range_message)"
    using prefixes_loop_error[of root year_to month_to year_from month_from "[]"
                                 "AssertionError range_message"]
    by (auto simp: messages_distinct)
  then show ?thesis
    by (auto simp: get_data_filepath_prefixes_def)
qed

theorem get_data_filepath_prefixes_range_error_iff_witness:
  "get_data_filepath_prefixes root_data_dir 2015 1 2014 12 = Inl (AssertionError range_message)
   \<and> get_data_filepath_prefixes root_data_dir 2014 5 2014 5 \<noteq> Inl (AssertionError range_message)"
  using get_data_filepath_prefixes_range_error_iff[of root_data_dir 2015 1 2014 12]
    get_data_filepath_prefixes_range_error_iff[of root_data_dir 2014 5 2014 5]
  by simp



section \<open>Checking the files of a range\<close>

lemma file_checks:
  "foldl (file_check isfile) w xs =
     w\<lparr>probed := probed w @ xs,
       printed := printed w @ map warning (filter (\<lambda>p. \<not> isfile p) xs)\<rparr>"
  by (induction xs arbitrary: w) (simp_all add: file_check_def Let_def)

lemma check_loop_maps:
  "check_loop isfile (map f ps) (map g ps) (map h ps) [k ..< length ps] w =
     (foldl (file_check isfile) w (concat (map (\<lambda>x. [f x, g x, h x]) (drop k ps))), Inr ())"
proof (induction "length ps - k" arbitrary: k w)
  case 0
  then show ?case by simp
next
  case (Suc n)
  then have k: "k < length ps" and n: "n = length ps - Suc k"
    by simp_all
  have "check_loop isfile (map f ps) (map g ps) (map h ps) [k ..< length ps] w =
        check_loop isfile (map f ps) (map g ps) (map h ps) [Suc k ..< length ps]
          (file_check isfile (file_check isfile (file_check isfile w (f (ps ! k))) (g (ps ! k)))
             (h (ps ! k)))"
    using k by (simp add: upt_conv_Cons)
  also have "\<dots> =
        (foldl (file_check isfile)
           (file_check isfile (file_check isfile (file_check isfile w (f (ps ! k))) (g (ps ! k)))
             (h (ps ! k)))
           (concat (map (\<lambda>x. [f x, g x, h x]) (drop (Suc k) ps))), Inr ())"
    by (rule Suc.hyps(1)[OF n])
  also have "\<dots> =
        (foldl (file_check isfile) w
           (concat (map (\<lambda>x. [f x, g x, h x]) (ps ! k # drop (Suc k) ps))), Inr ())"
    by simp
  finally show ?case
    using k by (simp add: Cons_nth_drop_Suc)
qed

lemma check_data_december:
  assumes "valid_range yf mf yt mt" "mt = 12"
  shows "check_data isfile root yf mf yt mt w = (w, Inl (AssertionError year_message))"
  by (simp add: check_data_def get_address_data_filepaths_def
        get_data_filepath_prefixes_december[OF assms])

lemma check_data_months:
  assumes "valid_range yf mf yt mt" "mt \<noteq> 12"
  shows "check_data isfile root yf mf yt mt w =
           (w\<lparr>probed := probed w @ concat (map (month_files root) (months_between yf mf yt mt)),
              printed := printed w @ map warning (filter (\<lambda>p. \<not> isfile p)
                           (concat (map (month_files root) (months_between yf mf yt mt))))\<rparr>,
            Inr ())"
proof -
  let ?ps = "map (\<lambda>(y, m). spec_prefix root y m) (months_between yf mf yt mt)"
  have files: "concat (map (\<lambda>p. [p @ ''ADDR BNFT.CSV'', p @ ''CHEM SUBS.CSV'', p @ ''PDPI BNFT.CSV''])
                  ?ps) = concat (map (month_files root) (months_between yf mf yt mt))"
    by (simp add: comp_def case_prod_beta month_files_def[abs_def])
  have "check_data isfile root yf mf yt mt w =
          check_loop isfile (map (\<lambda>p. p @ ''ADDR BNFT.CSV'') ?ps)
            (map (\<lambda>p. p @ ''CHEM SUBS.CSV'') ?ps) (map (\<lambda>p. p @ ''PDPI BNFT.CSV'') ?ps)
            [0 ..< length ?ps] w"
    by (simp add: check_data_def get_address_data_filepaths_def get_chems_data_filepaths_def
          get_prescription_data_filepaths_def get_data_filepath_prefixes_months[OF assms])
  also have "\<dots> = (foldl (file_check isfile) w
        (concat (map (\<lambda>p. [p @ ''ADDR BNFT.CSV'', p @ ''CHEM SUBS.CSV'', p @ ''PDPI BNFT.CSV''])
           (drop 0 ?ps))), Inr ())"
    by (rule check_loop_maps)
  finally show ?thesis
    by (simp only: drop_0 files file_checks)
qed

text \<open>
  C8. The spec asks that for every valid range the check looks at the three files of
  every month and prints one warning for each missing file. For the range from
  November 2013 to December 2013, with none of the six files present, the check looks
  at no file and prints nothing: it raises the assertion about the year.
\<close>

theorem check_data_nov_dec_2013:
  "check_data (\<lambda>p. False) root_data_dir 2013 11 2013 12 \<lparr>probed = [], printed = []\<rparr>
     = (\<lparr>probed = [], printed = []\<rparr>, Inl (AssertionError year_message))"
  by (rule check_data_december) (simp_all add: valid_range_def)

text \<open>
  C10. The spec asks that for every valid range the check looks at the files month by
  month in calendar order, and in each month at the address file, the chemicals file
  and the prescriptions file in this order. For the range from November 2013 to
  December 2013 these are six paths, and the check looks at none of them and prints
  nothing, whatever files exist: it raises the assertion about the year.
\<close>

theorem check_data_nov_dec_2013_examines_nothing:
  "check_data isfile root_data_dir 2013 11 2013 12 \<lparr>probed = [], printed = []\<rparr>
     = (\<lparr>probed = [], printed = []\<rparr>, Inl (AssertionError year_message))
   \<and> probed (fst (check_data isfile root_data_dir 2013 11 2013 12
                     \<lparr>probed = [], printed = []\<rparr>)) = []
   \<and> concat (map (month_files root_data_dir) (months_between 2013 11 2013 12)) =
       [''./full_data/2013_11_November/T201311ADDR BNFT.CSV'',
        ''./full_data/2013_11_November/T201311CHEM SUBS.CSV'',
        ''./full_data/2013_11_November/T201311PDPI BNFT.CSV'',
        ''./full_data/2013_12_December/T201312ADDR BNFT.CSV'',
        ''./full_data/2013_12_December/T201312CHEM SUBS.CSV'',
        ''./full_data/2013_12_December/T201312PDPI BNFT.CSV'']"
proof -
  have v: "valid_range 2013 11 2013 12"
    by (simp add: valid_range_def)
  have c: "check_data isfile root_data_dir 2013 11 2013 12 \<lparr>probed = [], printed = []\<rparr>
             = (\<lparr>probed = [], printed = []\<rparr>, Inl (AssertionError year_message))"
    using v by (rule check_data_december) simp
  have f: "concat (map (month_files root_data_dir) (months_between 2013 11 2013 12)) =
       [''./full_data/2013_11_November/T201311ADDR BNFT.CSV'',
        ''./full_data/2013_11_November/T201311CHEM SUBS.CSV'',
        ''./full_data/2013_11_November/T201311PDPI BNFT.CSV'',
        ''./full_data/2013_12_December/T201312ADDR BNFT.CSV'',
        ''./full_data/2013_12_December/T201312CHEM SUBS.CSV'',
        ''./full_data/2013_12_December/T201312PDPI BNFT.CSV'']"
    by (simp add: months_between_def upto_rec1 month_files_def spec_prefix_def month_dir_def
        file_stem_def four_digits_def two_digits_def month_names_def digit_char_def
        root_data_dir_def)
  from c f show ?thesis
    by simp
qed

section \<open>Loading a month\<close>

lemma digit_char_value:
  assumes "d < 10"
  shows "digit_value (digit_char d) = int d \<and> is_digit (digit_char d)"
proof -
  from assms have "d = 0 \<or> d = 1 \<or> d = 2 \<or> d = 3 \<or> d = 4 \<or> d = 5 \<or> d = 6 \<or> d = 7
      \<or> d = 8 \<or> d = 9"
    by arith
  then show ?thesis
    by (elim disjE) (simp_all add: digit_char_def digit_value_def is_digit_def)
qed

lemma split_last_digit: "int k = int (k div 10) * 10 + int (k mod 10)"
proof -
  have "int k = int (k div 10 * 10 + k mod 10)"
    by simp
  then show ?thesis
    by (simp only: of_nat_add of_nat_mult of_nat_numeral)
qed

lemma four_digits_value:
  assumes "0 \<le> y" "y \<le> 9999"
  shows "digits_value (four_digits y) = y \<and> list_all is_digit (four_digits y)"
proof -
  define n where "n = nat y"
  have n: "n < 10000" "y = int n"
    using assms by (simp_all add: n_def)
  have d: "n div 1000 < 10" "n div 100 mod 10 < 10" "n div 10 mod 10 < 10" "n mod 10 < 10"
    using n by simp_all
  have q: "n div 10 div 10 = n div 100" "n div 100 div 10 = n div 1000"
    by (simp_all add: div_mult2_eq[symmetric])
  have "int n = int (n div 10) * 10 + int (n mod 10)"
    by (rule split_last_digit)
  moreover have "int (n div 10) = int (n div 100) * 10 + int (n div 10 mod 10)"
    using split_last_digit[of "n div 10"] by (simp only: q)
  moreover have "int (n div 100) = int (n div 1000) * 10 + int (n div 100 mod 10)"
    using split_last_digit[of "n div 100"] by (simp only: q)
  ultimately have v: "((int (n div 1000) * 10 + int (n div 100 mod 10)) * 10
               + int (n div 10 mod 10)) * 10 + int (n mod 10) = int n"
    by simp
  have "digits_value (four_digits y) =
          ((int (n div 1000) * 10 + int (n div 100 mod 10)) * 10
               + int (n div 10 mod 10)) * 10 + int (n mod 10)"
    using d by (simp add: four_digits_def digits_value_def digit_char_value n_def[symmetric])
  moreover have "list_all is_digit (four_digits y)"
    using d by (simp add: four_digits_def digit_char_value n_def[symmetric])
  ultimately show ?thesis
    using v n by simp
qed

lemma two_digits_value:
  assumes "0 \<le> m" "m \<le> 99"
  shows "digits_value (two_digits m) = m \<and> list_all is_digit (two_digits m)"
proof -
  define n where "n = nat m"
  have n: "n < 100" "m = int n"
    using assms by (simp_all add: n_def)
  have d: "n div 10 < 10" "n mod 10 < 10"
    using n by simp_all
  have "digits_value (two_digits m) = int (n div 10) * 10 + int (n mod 10)"
    using d by (simp add: two_digits_def digits_value_def digit_char_value n_def[symmetric])
  moreover have "list_all is_digit (two_digits m)"
    using d by (simp add: two_digits_def digit_char_value n_def[symmetric])
  ultimately show ?thesis
    using split_last_digit[of n] n by simp
qed

lemma parse_year_month_digits:
  assumes "0 \<le> y" "y \<le> 9999" "1 \<le> m" "m \<le> 12"
  shows "parse_year_month (Text (four_digits y @ two_digits m)) = Inr (Date y m 1)"
proof -
  have l: "length (four_digits y) = 4" "length (two_digits m) = 2"
    by (simp_all add: four_digits_def two_digits_def)
  have "take 4 (four_digits y @ two_digits m) = four_digits y"
    "drop 4 (four_digits y @ two_digits m) = two_digits m"
    using l by simp_all
  then show ?thesis
    using assms four_digits_value[of y] two_digits_value[of m] l
    by (simp add: parse_year_month_def)
qed

lemma sequence_err_Inr: "sequence_err (map Inr xs) = Inr xs"
  by (induction xs) simp_all

lemma sequence_err_map:
  "(\<And>x. x \<in> set xs \<Longrightarrow> f x = Inr (g x)) \<Longrightarrow> sequence_err (map f xs) = Inr (map g xs)"
  by (induction xs) simp_all

lemma seven_fields:
  assumes "length rest = 7"
  obtains a b c d e f g where "rest = [a, b, c, d, e, f, g]"
proof -
  from assms obtain a r1 where "rest = a # r1" "length r1 = 6"
    by (cases rest) simp_all
  moreover then obtain b r2 where "r1 = b # r2" "length r2 = 5"
    by (cases r1) simp_all
  moreover then obtain c r3 where "r2 = c # r3" "length r3 = 4"
    by (cases r2) simp_all
  moreover then obtain d r4 where "r3 = d # r4" "length r4 = 3"
    by (cases r3) simp_all
  moreover then obtain e r5 where "r4 = e # r5" "length r5 = 2"
    by (cases r4) simp_all
  moreover then obtain f r6 where "r5 = f # r6" "length r6 = 1"
    by (cases r5) simp_all
  moreover then obtain g where "r6 = [g]"
    by (cases r6) simp_all
  ultimately show ?thesis
    using that by simp
qed

lemma address_row:
  assumes "0 \<le> y" "y \<le> 9999" "1 \<le> m" "m \<le> 12" "length rest = 7"
  shows "sequence_err
           (map (\<lambda>(name, c). if name = ''Year-Month''
                              then map_sum id (Pair name) (parse_year_month c)
                              else Inr (name, c))
              (zip addresses_col_names (map Text ((four_digits y @ two_digits m) # rest))))
         = Inr (zip addresses_col_names (Date y m 1 # map Text rest))"
proof -
  from assms(5) obtain a b c d e f g where "rest = [a, b, c, d, e, f, g]"
    by (rule seven_fields)
  then show ?thesis
    using parse_year_month_digits[OF assms(1-4)]
    by (simp add: addresses_col_names_def)
qed

text \<open>
  C6. A well-formed address file: every row has the six digits of a year and a month
  (the month from 01 to 12) in its first field and seven more fields. Loading it
  skips no row: the table has one record per row of the file, in the order of the file,
  with the eight column names in order, the first cell the first day of that month and
  the other cells the texts of the fields; so the table has as many records as the file
  has rows.
\<close>

theorem load_address_data_rows:
  assumes "get_address_data_filepath root year month = Inr filepath"
    and "files filepath =
           Some (map (\<lambda>(y, m, rest). (four_digits y @ two_digits m) # rest) entries)"
    and "\<forall>(y, m, rest) \<in> set entries.
           0 \<le> y \<and> y \<le> 9999 \<and> 1 \<le> m \<and> m \<le> 12 \<and> length rest = 7"
  shows "load_address_data files root year month =
           Inr (map (\<lambda>(y, m, rest).
                  zip [''Year-Month'', ''PracticeCode'', ''PracticeName'', ''Addr1'', ''Addr2'',
                       ''Addr3'', ''Addr4'', ''PostCode'']
                    (Date y m 1 # map Text rest)) entries)
         \<and> (\<exists>frame. load_address_data files root year month = Inr frame
               \<and> length frame = length entries)"
proof -
  let ?rows = "map (\<lambda>(y, m, rest). (four_digits y @ two_digits m) # rest) entries"
  have shape: "list_all (\<lambda>r. length r = length addresses_col_names) ?rows"
    using assms(3) by (auto simp: list_all_iff addresses_col_names_def)
  have read: "read_csv files filepath addresses_col_names 0 =
                Inr (map (\<lambda>r. zip addresses_col_names (map Text r)) ?rows)"
    using assms(2) shape by (simp add: read_csv_def)
  have conv: "sequence_err
           (map (\<lambda>x. sequence_err
                   (map (\<lambda>(name, c). if name = ''Year-Month''
                                      then map_sum id (Pair name) (parse_year_month c)
                                      else Inr (name, c))
                      (zip addresses_col_names
                         (map Text (case x of (y, m, rest) \<Rightarrow> (four_digits y @ two_digits m) # rest)))))
              entries)
         = Inr (map (\<lambda>x. case x of (y, m, rest) \<Rightarrow>
                  zip addresses_col_names (Date y m 1 # map Text rest)) entries)"
  proof (rule sequence_err_map)
    fix x assume mem: "x \<in> set entries"
    obtain y m rest where x: "x = (y, m, rest)"
      by (cases x)
    with assms(3) mem have b: "0 \<le> y" "y \<le> 9999" "1 \<le> m" "m \<le> 12" "length rest = 7"
      by auto
    show "sequence_err
            (map (\<lambda>(name, c). if name = ''Year-Month''
                               then map_sum id (Pair name) (parse_year_month c)
                               else Inr (name, c))
               (zip addresses_col_names
                  (map Text (case x of (y, m, rest) \<Rightarrow> (four_digits y @ two_digits m) # rest))))
          = Inr (case x of (y, m, rest) \<Rightarrow> zip addresses_col_names (Date y m 1 # map Text rest))"
      unfolding x prod.case by (rule address_row[OF b])
  qed
  have "to_datetime ''Year-Month'' (map (\<lambda>r. zip addresses_col_names (map Text r)) ?rows) =
          Inr (map (\<lambda>(y, m, rest). zip addresses_col_names (Date y m 1 # map Text rest)) entries)"
    unfolding to_datetime_def map_map comp_def by (rule conv)
  then have "load_address_data files root year month =
          Inr (map (\<lambda>(y, m, rest). zip addresses_col_names (Date y m 1 # map Text rest)) entries)"
    using assms(1) read by (simp add: load_address_data_def)
  then show ?thesis
    by (simp add: addresses_col_names_def)
qed

theorem load_address_data_rows_witness:
  "load_address_data
     [''./full_data/2013_04_April/T201304ADDR BNFT.CSV'' \<mapsto>
        [[''201304'', ''A81001'', ''THE DENSHAM SURGERY'', ''THE HEALTH CENTRE'',
          ''LAWSON STREET'', ''STOCKTON'', ''CLEVELAND'', ''TS18 1HU''],
         [''201304'', ''A81002'', ''QUEENS PARK MEDICAL CENTRE'', ''QUEENS PARK MEDICAL CTR'',
          ''FARRER STREET'', ''STOCKTON ON TEES'', ''CLEVELAND'', ''TS18 2AW'']]]
     ''./full_data/'' 2013 4 =
   Inr [[(''Year-Month'', Date 2013 4 1), (''PracticeCode'', Text ''A81001''),
         (''PracticeName'', Text ''THE DENSHAM SURGERY''), (''Addr1'', Text ''THE HEALTH CENTRE''),
         (''Addr2'', Text ''LAWSON STREET''), (''Addr3'', Text ''STOCKTON''),
         (''Addr4'', Text ''CLEVELAND''), (''PostCode'', Text ''TS18 1HU'')],
        [(''Year-Month'', Date 2013 4 1), (''PracticeCode'', Text ''A81002''),
         (''PracticeName'', Text ''QUEENS PARK MEDICAL CENTRE''),
         (''Addr1'', Text ''QUEENS PARK MEDICAL CTR''), (''Addr2'', Text ''FARRER STREET''),
         (''Addr3'', Text ''STOCKTON ON TEES''), (''Addr4'', Text ''CLEVELAND''),
         (''PostCode'', Text ''TS18 2AW'')]]"
proof -
  have p: "get_address_data_filepath ''./full_data/'' 2013 4 =
             Inr ''./full_data/2013_04_April/T201304ADDR BNFT.CSV''"
    by (simp add: get_address_data_filepath_def get_file_path_prefix_valid april_2013)
  have d: "four_digits 2013 @ two_digits 4 = ''201304''"
    by (simp add: four_digits_def two_digits_def digit_char_def)
  show ?thesis
    using load_address_data_rows[OF p,
      of "[''./full_data/2013_04_April/T201304ADDR BNFT.CSV'' \<mapsto>
        [[''201304'', ''A81001'', ''THE DENSHAM SURGERY'', ''THE HEALTH CENTRE'',
          ''LAWSON STREET'', ''STOCKTON'', ''CLEVELAND'', ''TS18 1HU''],
         [''201304'', ''A81002'', ''QUEENS PARK MEDICAL CENTRE'', ''QUEENS PARK MEDICAL CTR'',
          ''FARRER STREET'', ''STOCKTON ON TEES'', ''CLEVELAND'', ''TS18 2AW'']]]"
         "[(2013, 4, [''A81001'', ''THE DENSHAM SURGERY'', ''THE HEALTH CENTRE'',
          ''LAWSON STREET'', ''STOCKTON'', ''CLEVELAND'', ''TS18 1HU'']),
           (2013, 4, [''A81002'', ''QUEENS PARK MEDICAL CENTRE'', ''QUEENS PARK MEDICAL CTR'',
          ''FARRER STREET'', ''STOCKTON ON TEES'', ''CLEVELAND'', ''TS18 2AW''])]"]
    by (simp add: d)
qed

text \<open>
  C7. A chemicals file made of a header row and N rows of two fields each. Loading it
  skips the first row and no other: the table has one record per row after the header,
  in the order of the file, with the two column names in order, so it has N records
  and the header is not one of them.
\<close>

theorem load_chems_data_rows:
  assumes "get_chems_data_filepath root year month = Inr filepath"
    and "files filepath = Some (header # rows)"
    and "\<forall>r \<in> set rows. length r = 2"
  shows "load_chems_data files root year month =
           Inr (map (\<lambda>r. [(''ChemCode'', Text (r ! 0)), (''ChemName'', Text (r ! 1))]) rows)
         \<and> (\<exists>frame. load_chems_data files root year month = Inr frame
               \<and> length frame = length rows)"
proof -
  have two: "zip chem_col_names (map Text r) = [(''ChemCode'', Text (r ! 0)), (''ChemName'', Text (r ! 1))]"
    if "length r = 2" for r
  proof -
    from that obtain a b where "r = [a, b]"
      by (cases r; cases "tl r") auto
    then show ?thesis
      by (simp add: chem_col_names_def)
  qed
  have shape: "list_all (\<lambda>r. length r = length chem_col_names) rows"
    using assms(3) by (simp add: list_all_iff chem_col_names_def)
  have "read_csv files filepath chem_col_names 1 =
          Inr (map (\<lambda>r. zip chem_col_names (map Text r)) rows)"
    using assms(2) shape by (simp add: read_csv_def)
  also have "map (\<lambda>r. zip chem_col_names (map Text r)) rows =
          map (\<lambda>r. [(''ChemCode'', Text (r ! 0)), (''ChemName'', Text (r ! 1))]) rows"
    using assms(3) by (simp add: two)
  finally show ?thesis
    using assms(1) by (simp add: load_chems_data_def)
qed

theorem load_chems_data_rows_witness:
  "load_chems_data
     [''./full_data/2013_04_April/T201304CHEM SUBS.CSV'' \<mapsto>
        [[''CHEM SUB'', ''NAME''],
         [''0101010A0'', ''Alexitol Sodium''],
         [''0101010B0'', ''Almasilate''],
         [''0101010C0'', ''Aluminium Hydroxide'']]]
     ''./full_data/'' 2013 4 =
   Inr [[(''ChemCode'', Text ''0101010A0''), (''ChemName'', Text ''Alexitol Sodium'')],
        [(''ChemCode'', Text ''0101010B0''), (''ChemName'', Text ''Almasilate'')],
        [(''ChemCode'', Text ''0101010C0''), (''ChemName'', Text ''Aluminium Hydroxide'')]]"
proof -
  have p: "get_chems_data_filepath ''./full_data/'' 2013 4 =
             Inr ''./full_data/2013_04_April/T201304CHEM SUBS.CSV''"
    by (simp add: get_chems_data_filepath_def get_file_path_prefix_valid april_2013)
  show ?thesis
    using load_chems_data_rows[OF p,
      of "[''./full_data/2013_04_April/T201304CHEM SUBS.CSV'' \<mapsto>
        [[''CHEM SUB'', ''NAME''],
         [''0101010A0'', ''Alexitol Sodium''],
         [''0101010B0'', ''Almasilate''],
         [''0101010C0'', ''Aluminium Hydroxide'']]]"
         "[''CHEM SUB'', ''NAME'']"
         "[[''0101010A0'', ''Alexitol Sodium''],
         [''0101010B0'', ''Almasilate''],
         [''0101010C0'', ''Aluminium Hydroxide'']]"]
    by simp
qed

end
